theory Spec2Isabelle
  imports Main "HOL-Library.AList"
begin

section \<open>Bus booking system: the model\<close>

text \<open>
  A shallow embedding of \<^verbatim>\<open>FINAL-PYTHON-FAST-API-PROJECT.py\<close>.

  Python integers are \<^typ>\<open>int\<close>. A Python string is a \<^typ>\<open>string\<close>, one
  \<^typ>\<open>char\<close> per code point, so the model covers the strings whose code points
  are below 256. The \<^verbatim>\<open>Bus\<close> objects are mutable and shared: the dictionary
  \<^verbatim>\<open>_buses\<close> and every \<^verbatim>\<open>Booking\<close> hold references to the same objects.
  They live in an explicit store, a function from addresses to objects; the dictionary
  and the bookings hold addresses. The clock (\<^verbatim>\<open>datetime.now()\<close>) is an input of
  the operations that read it. The \<^verbatim>\<open>print\<close> calls of \<^verbatim>\<open>log_operation\<close> write
  to the console only and are left out.
\<close>

subsection \<open>Pydantic models\<close>

record BusResponse =
  br_bus_id :: int
  br_route :: string
  br_time :: string
  br_fare :: int
  br_seats_available :: int

record BookingRequest =
  rq_name :: string
  rq_bus_id :: int
  rq_seats :: int

record BookingResponse =
  rs_booking_id :: string
  rs_name :: string
  rs_bus_id :: int
  rs_route :: string
  rs_time :: string
  rs_seats :: int
  rs_total_fare :: int
  rs_booking_time :: string

record CancelRequest =
  cr_name :: string

text \<open>
  The \<^verbatim>\<open>Field\<close> constraints of \<^verbatim>\<open>BookingRequest\<close>:
  \<^verbatim>\<open>name: min_length=1, max_length=100\<close>, \<^verbatim>\<open>bus_id: gt=0\<close>,
  \<^verbatim>\<open>seats: gt=0, le=30\<close>; and of \<^verbatim>\<open>CancelRequest\<close>: \<^verbatim>\<open>name: min_length=1\<close>.
\<close>

definition BookingRequest_valid :: "BookingRequest \<Rightarrow> bool" where
  "BookingRequest_valid r =
     (1 \<le> length (rq_name r) \<and> length (rq_name r) \<le> 100 \<and>
      0 < rq_bus_id r \<and> 0 < rq_seats r \<and> rq_seats r \<le> 30)"

definition CancelRequest_valid :: "CancelRequest \<Rightarrow> bool" where
  "CancelRequest_valid r = (1 \<le> length (cr_name r))"

subsection \<open>Errors\<close>

text \<open>
  \<^verbatim>\<open>HTTPException(status_code, detail)\<close> as raised by the code, and the
  failure to construct a request object: the classes \<^verbatim>\<open>BookingRequest\<close> and
  \<^verbatim>\<open>CancelRequest\<close> refuse input that violates their \<^verbatim>\<open>Field\<close>
  constraints, and then no object reaches the function that takes one.
\<close>

datatype error = HTTPException nat string | RequestValidationError

definition RouteNotFound :: error where
  "RouteNotFound = HTTPException 404 ''Bus not found''"

definition InsufficientSeats :: error where
  "InsufficientSeats = HTTPException 400 ''Not enough seats available''"

definition BookingNotFound :: error where
  "BookingNotFound = HTTPException 404 ''Booking not found''"

subsection \<open>The clock\<close>

record datetime =
  year :: nat
  month :: nat
  day :: nat
  hour :: nat
  minute :: nat
  second :: nat
  microsecond :: nat

text \<open>The ranges of the fields of a Python \<^verbatim>\<open>datetime\<close>, with a four-digit year.\<close>

definition valid_datetime :: "datetime \<Rightarrow> bool" where
  "valid_datetime d =
     (1000 \<le> year d \<and> year d \<le> 9999 \<and> 1 \<le> month d \<and> month d \<le> 12 \<and>
      1 \<le> day d \<and> day d \<le> 31 \<and> hour d < 24 \<and> minute d < 60 \<and>
      second d < 60 \<and> microsecond d < 1000000)"

definition digit_char :: "nat \<Rightarrow> char" where
  "digit_char n = char_of (48 + n mod 10)"

text \<open>\<open>zero_padded w n\<close>: the last \<open>w\<close> decimal digits of \<open>n\<close>, as \<^verbatim>\<open>%02d\<close> prints
  a number below 100 for \<open>w = 2\<close>.\<close>

primrec zero_padded :: "nat \<Rightarrow> nat \<Rightarrow> string" where
  "zero_padded 0 n = []"
| "zero_padded (Suc w) n = zero_padded w (n div 10) @ [digit_char n]"

text \<open>\<^verbatim>\<open>strftime('%Y%m%d%H%M%S')\<close>\<close>

definition strftime_YmdHMS :: "datetime \<Rightarrow> string" where
  "strftime_YmdHMS d =
     zero_padded 4 (year d) @ zero_padded 2 (month d) @ zero_padded 2 (day d) @
     zero_padded 2 (hour d) @ zero_padded 2 (minute d) @ zero_padded 2 (second d)"

text \<open>\<^verbatim>\<open>isoformat()\<close>: the microseconds are printed when they are not zero.\<close>

definition isoformat :: "datetime \<Rightarrow> string" where
  "isoformat d =
     zero_padded 4 (year d) @ ''-'' @ zero_padded 2 (month d) @ ''-'' @
     zero_padded 2 (day d) @ ''T'' @ zero_padded 2 (hour d) @ '':'' @
     zero_padded 2 (minute d) @ '':'' @ zero_padded 2 (second d) @
     (if microsecond d = 0 then [] else ''.'' @ zero_padded 6 (microsecond d))"

subsection \<open>Strings\<close>

text \<open>
  \<^verbatim>\<open>str.lower()\<close> on code points below 256: the capital letters A to Z and the
  capital letters of Latin-1 (192 to 222, without the multiplication sign 215) move up
  by 32; every other code point stays.
\<close>

definition lower_char :: "char \<Rightarrow> char" where
  "lower_char c =
     (let n = (of_char c :: nat)
      in if (65 \<le> n \<and> n \<le> 90) \<or> (192 \<le> n \<and> n \<le> 222 \<and> n \<noteq> 215)
         then char_of (n + 32) else c)"

definition lower :: "string \<Rightarrow> string" where
  "lower s = map lower_char s"

subsection \<open>Bus\<close>

record Bus =
  bus_id :: int
  route :: string
  time :: string
  fare :: int
  total_seats :: int
  available_seats :: int

text \<open>\<^verbatim>\<open>Bus.__init__\<close>, with \<^verbatim>\<open>total_seats\<close> given.\<close>

definition Bus_init :: "int \<Rightarrow> string \<Rightarrow> string \<Rightarrow> int \<Rightarrow> int \<Rightarrow> Bus" where
  "Bus_init bid r t f n_seats =
     \<lparr>bus_id = bid, route = r, time = t, fare = f,
      total_seats = n_seats, available_seats = n_seats\<rparr>"

text \<open>The methods mutate the object: the model returns the object after the call.\<close>

definition reserve_seats :: "int \<Rightarrow> Bus \<Rightarrow> bool \<times> Bus" where
  "reserve_seats seats self =
     (if seats \<le> available_seats self
      then (True, self\<lparr>available_seats := available_seats self - seats\<rparr>)
      else (False, self))"

definition release_seats :: "int \<Rightarrow> Bus \<Rightarrow> Bus" where
  "release_seats seats self =
     self\<lparr>available_seats := min (available_seats self + seats) (total_seats self)\<rparr>"

definition Bus_to_response :: "Bus \<Rightarrow> BusResponse" where
  "Bus_to_response self =
     \<lparr>br_bus_id = bus_id self, br_route = route self, br_time = time self,
      br_fare = fare self, br_seats_available = available_seats self\<rparr>"

subsection \<open>Booking\<close>

text \<open>The field \<open>bus\<close> is the address of the \<^verbatim>\<open>Bus\<close> object the booking refers to.\<close>

record Booking =
  booking_id :: string
  name :: string
  bus :: nat
  seats :: int
  total_fare :: int
  booking_time :: string

text \<open>
  \<^verbatim>\<open>Booking.__init__\<close> reads the clock twice (\<open>now1\<close> for the identifier, \<open>now2\<close>
  for the booking time) and the fare of the bus object (\<open>b\<close>, the object at \<open>ref\<close>).
\<close>

definition Booking_init :: "string \<Rightarrow> nat \<Rightarrow> Bus \<Rightarrow> int \<Rightarrow> datetime \<Rightarrow> datetime \<Rightarrow> Booking" where
  "Booking_init n ref b s now1 now2 =
     \<lparr>booking_id = ''BK'' @ strftime_YmdHMS now1, name = n, bus = ref, seats = s,
      total_fare = s * fare b, booking_time = isoformat now2\<rparr>"

definition Booking_to_response :: "(nat \<Rightarrow> Bus) \<Rightarrow> Booking \<Rightarrow> BookingResponse" where
  "Booking_to_response h self =
     \<lparr>rs_booking_id = booking_id self, rs_name = name self,
      rs_bus_id = bus_id (h (bus self)), rs_route = route (h (bus self)),
      rs_time = time (h (bus self)), rs_seats = seats self,
      rs_total_fare = total_fare self, rs_booking_time = booking_time self\<rparr>"

subsection \<open>BusBookingSystem\<close>

text \<open>
  \<open>heap\<close> is the store of \<^verbatim>\<open>Bus\<close> objects, \<open>buses\<close> the dictionary \<^verbatim>\<open>_buses\<close>
  (bus id to address, in insertion order), \<open>bookings\<close> the list \<^verbatim>\<open>_bookings\<close>.
\<close>

record BusBookingSystem =
  heap :: "nat \<Rightarrow> Bus"
  buses :: "(int \<times> nat) list"
  bookings :: "Booking list"

text \<open>
  \<^verbatim>\<open>BusBookingSystem.__init__\<close>: three buses of 30 seats at the addresses 0, 1, 2.
  No other address is ever referred to; each holds a blank object.
\<close>

definition BusBookingSystem_init :: BusBookingSystem where
  "BusBookingSystem_init =
     \<lparr>heap = (\<lambda>_. Bus_init 0 [] [] 0 0)
        (0 := Bus_init 1 ''North Nazimabad - Power House'' ''09:00 AM'' 500 30,
         1 := Bus_init 2 ''KDA - Gulshan'' ''12:00 PM'' 700 30,
         2 := Bus_init 3 ''Ayesha Manzil - Bahria'' ''05:00 PM'' 600 30),
      buses = [(1, 0), (2, 1), (3, 2)],
      bookings = []\<rparr>"

definition get_all_buses :: "BusBookingSystem \<Rightarrow> BusResponse list" where
  "get_all_buses self = map (\<lambda>(k, ref). Bus_to_response (heap self ref)) (buses self)"

definition get_bus :: "BusBookingSystem \<Rightarrow> int \<Rightarrow> nat option" where
  "get_bus self bid = map_of (buses self) bid"

text \<open>
  \<^verbatim>\<open>create_booking\<close>. A \<^verbatim>\<open>raise\<close> is the left summand; the state is returned in
  every case, as the caller finds it after the call.
\<close>

definition create_booking ::
  "BookingRequest \<Rightarrow> datetime \<Rightarrow> datetime \<Rightarrow> BusBookingSystem \<Rightarrow>
     (error + BookingResponse) \<times> BusBookingSystem" where
  "create_booking booking_data now1 now2 self =
     (case get_bus self (rq_bus_id booking_data) of
        None \<Rightarrow> (Inl (HTTPException 404 ''Bus not found''), self)
      | Some ref \<Rightarrow>
          (let (ok, b) = reserve_seats (rq_seats booking_data) (heap self ref);
               self1 = self\<lparr>heap := (heap self)(ref := b)\<rparr>
           in if \<not> ok
              then (Inl (HTTPException 400 ''Not enough seats available''), self1)
              else
                (let booking =
                       Booking_init (rq_name booking_data) ref b (rq_seats booking_data)
                         now1 now2;
                     self2 = self1\<lparr>bookings := bookings self1 @ [booking]\<rparr>
                 in (Inr (Booking_to_response (heap self2) booking), self2))))"

text \<open>\<^verbatim>\<open>del xs[i]\<close>, for an index of the list.\<close>

definition del_at :: "nat \<Rightarrow> 'a list \<Rightarrow> 'a list" where
  "del_at i xs = take i xs @ drop (Suc i) xs"

text \<open>
  The loop of \<^verbatim>\<open>cancel_booking\<close> over \<^verbatim>\<open>enumerate(self._bookings)\<close>: the first
  argument is what is left of the enumeration.
\<close>

fun cancel_loop ::
  "(nat \<times> Booking) list \<Rightarrow> string \<Rightarrow> BusBookingSystem \<Rightarrow> bool \<times> BusBookingSystem" where
  "cancel_loop [] n self = (False, self)"
| "cancel_loop ((i, booking) # rest) n self =
     (if lower (name booking) = lower n
      then (True,
            self\<lparr>heap := (heap self)
                    (bus booking := release_seats (seats booking) (heap self (bus booking))),
                  bookings := del_at i (bookings self)\<rparr>)
      else cancel_loop rest n self)"

definition cancel_booking :: "string \<Rightarrow> BusBookingSystem \<Rightarrow> bool \<times> BusBookingSystem" where
  "cancel_booking n self = cancel_loop (enumerate 0 (bookings self)) n self"

definition get_all_bookings :: "BusBookingSystem \<Rightarrow> BookingResponse list" where
  "get_all_bookings self = map (Booking_to_response (heap self)) (bookings self)"

subsection \<open>The endpoints\<close>

text \<open>
  The public operations of the program. \<^verbatim>\<open>book_ticket\<close> and the endpoint
  \<^verbatim>\<open>cancel_booking\<close> take a request object. The first branch of their models
  is not a line of the endpoint function: it stands for the construction of the request
  object from the input of a request, which the class refuses when its \<^verbatim>\<open>Field\<close>
  constraints (\<open>BookingRequest_valid\<close>, \<open>CancelRequest_valid\<close>) do not hold, so
  that the function body does not run and the state stays as it is. The second branch
  is the body of the source function. \<^verbatim>\<open>error_handler\<close> lets every
  \<^verbatim>\<open>HTTPException\<close> pass, and the bodies raise nothing else. A request that
  the program does not serve at all leaves the state as it is, like a refused one.
\<close>

definition get_buses :: "BusBookingSystem \<Rightarrow> BusResponse list \<times> BusBookingSystem" where
  "get_buses sys = (get_all_buses sys, sys)"

definition book_ticket ::
  "BookingRequest \<Rightarrow> datetime \<Rightarrow> datetime \<Rightarrow> BusBookingSystem \<Rightarrow>
     (error + BookingResponse) \<times> BusBookingSystem" where
  "book_ticket booking_request now1 now2 sys =
     (if \<not> BookingRequest_valid booking_request then (Inl RequestValidationError, sys)
      else create_booking booking_request now1 now2 sys)"

definition cancel_booking_endpoint ::
  "CancelRequest \<Rightarrow> BusBookingSystem \<Rightarrow> (error + string) \<times> BusBookingSystem" where
  "cancel_booking_endpoint cancel_request sys =
     (if \<not> CancelRequest_valid cancel_request then (Inl RequestValidationError, sys)
      else
        (let (found, sys') = cancel_booking (cr_name cancel_request) sys
         in if found then (Inr ''Booking cancelled successfully'', sys')
            else (Inl (HTTPException 404 ''Booking not found''), sys')))"

definition get_bookings :: "BusBookingSystem \<Rightarrow> BookingResponse list \<times> BusBookingSystem" where
  "get_bookings sys = (get_all_bookings sys, sys)"

subsection \<open>Runs of the service\<close>

datatype request =
    ViewBuses
  | BookTicket BookingRequest datetime datetime
  | CancelBooking CancelRequest
  | ViewBookings

fun serve :: "request \<Rightarrow> BusBookingSystem \<Rightarrow> BusBookingSystem" where
  "serve ViewBuses sys = snd (get_buses sys)"
| "serve (BookTicket r now1 now2) sys = snd (book_ticket r now1 now2 sys)"
| "serve (CancelBooking r) sys = snd (cancel_booking_endpoint r sys)"
| "serve ViewBookings sys = snd (get_bookings sys)"

text \<open>The states of the service: the initial one, and every state after a request.\<close>

inductive reachable :: "BusBookingSystem \<Rightarrow> bool" where
  initial: "reachable BusBookingSystem_init"
| served: "reachable sys \<Longrightarrow> reachable (serve rq sys)"

definition run :: "request list \<Rightarrow> BusBookingSystem \<Rightarrow> BusBookingSystem" where
  "run rqs sys = foldl (\<lambda>s rq. serve rq s) sys rqs"

subsection \<open>Quantities the properties are about\<close>

text \<open>The seats of the bookings of a ledger that refer to the bus object at \<open>ref\<close>.\<close>

definition seats_booked :: "Booking list \<Rightarrow> nat \<Rightarrow> int" where
  "seats_booked bs ref = sum_list (map seats (filter (\<lambda>b. bus b = ref) bs))"

text \<open>
  The invariant of the service: every booking has a positive seat count, and every bus
  object has as many seats available as its total less the seats booked on it, which do
  not exceed the total.
\<close>

definition consistent :: "BusBookingSystem \<Rightarrow> bool" where
  "consistent sys =
     ((\<forall>b\<in>set (bookings sys). 0 < seats b) \<and>
      (\<forall>ref. seats_booked (bookings sys) ref \<le> total_seats (heap sys ref) \<and>
             available_seats (heap sys ref) =
               total_seats (heap sys ref) - seats_booked (bookings sys) ref))"

text \<open>
  The clock readings from which the bookings of a run would take their identifiers (the
  first reading of each booking request), the clock second of a reading, and the
  identifier \<^verbatim>\<open>Booking.__init__\<close> builds from a reading.
\<close>

fun clock_readings :: "request list \<Rightarrow> datetime list" where
  "clock_readings [] = []"
| "clock_readings (BookTicket r now1 now2 # rqs) = now1 # clock_readings rqs"
| "clock_readings (rq # rqs) = clock_readings rqs"

definition clock_second :: "datetime \<Rightarrow> nat \<times> nat \<times> nat \<times> nat \<times> nat \<times> nat" where
  "clock_second d = (year d, month d, day d, hour d, minute d, second d)"

definition new_id :: "datetime \<Rightarrow> string" where
  "new_id d = ''BK'' @ strftime_YmdHMS d"

subsection \<open>Example inputs\<close>

definition example_now :: datetime where
  "example_now =
     \<lparr>year = 2024, month = 1, day = 2, hour = 3, minute = 4, second = 5, microsecond = 6\<rparr>"

definition example_later :: datetime where
  "example_later = example_now\<lparr>second := 6\<rparr>"

definition after_alice :: BusBookingSystem where
  "after_alice =
     run [BookTicket \<lparr>rq_name = ''Alice'', rq_bus_id = 1, rq_seats = 5\<rparr> example_now example_now]
       BusBookingSystem_init"

definition after_carol :: BusBookingSystem where
  "after_carol =
     run [BookTicket \<lparr>rq_name = ''Carol'', rq_bus_id = 1, rq_seats = 2\<rparr> example_now example_now]
       BusBookingSystem_init"

definition three_bookings :: BusBookingSystem where
  "three_bookings =
     run [BookTicket \<lparr>rq_name = ''Bob'', rq_bus_id = 1, rq_seats = 1\<rparr> example_now example_now,
          BookTicket \<lparr>rq_name = ''Alice'', rq_bus_id = 1, rq_seats = 2\<rparr> example_now example_now,
          BookTicket \<lparr>rq_name = ''ALICE'', rq_bus_id = 2, rq_seats = 3\<rparr> example_now example_now]
       BusBookingSystem_init"

definition same_second :: "request list" where
  "same_second =
     [BookTicket \<lparr>rq_name = ''Alice'', rq_bus_id = 1, rq_seats = 5\<rparr> example_now example_now,
      BookTicket \<lparr>rq_name = ''Bob'', rq_bus_id = 2, rq_seats = 1\<rparr> example_now example_now]"

definition next_second :: "request list" where
  "next_second =
     [BookTicket \<lparr>rq_name = ''Alice'', rq_bus_id = 1, rq_seats = 5\<rparr> example_now example_now,
      BookTicket \<lparr>rq_name = ''Bob'', rq_bus_id = 2, rq_seats = 1\<rparr> example_later example_later]"

text \<open>The three bookings of the ledger of \<open>three_bookings\<close>.\<close>

definition bob_booking :: Booking where
  "bob_booking =
     \<lparr>booking_id = ''BK20240102030405'', name = ''Bob'', bus = 0, seats = 1,
      total_fare = 500, booking_time = ''2024-01-02T03:04:05.000006''\<rparr>"

definition alice_booking :: Booking where
  "alice_booking =
     \<lparr>booking_id = ''BK20240102030405'', name = ''Alice'', bus = 0, seats = 2,
      total_fare = 1000, booking_time = ''2024-01-02T03:04:05.000006''\<rparr>"

definition ALICE_booking :: Booking where
  "ALICE_booking =
     \<lparr>booking_id = ''BK20240102030405'', name = ''ALICE'', bus = 1, seats = 3,
      total_fare = 2100, booking_time = ''2024-01-02T03:04:05.000006''\<rparr>"

section \<open>Lemmas\<close>

subsection \<open>Runs\<close>

lemma run_Nil: "run [] sys = sys"
  by (simp add: run_def)

lemma run_Cons: "run (rq # rqs) sys = run rqs (serve rq sys)"
  by (simp add: run_def)

lemma reachable_run: "reachable sys \<Longrightarrow> reachable (run rqs sys)"
  by (induction rqs arbitrary: sys) (simp_all add: run_Nil run_Cons reachable.served)

lemma reachable_after_alice: "reachable after_alice"
  unfolding after_alice_def by (rule reachable_run [OF reachable.initial])

lemma reachable_after_carol: "reachable after_carol"
  unfolding after_carol_def by (rule reachable_run [OF reachable.initial])

subsection \<open>The loop of \<open>cancel_booking\<close>\<close>

lemma del_at_append_Cons: "del_at (length pre) (pre @ b # post) = pre @ post"
  by (simp add: del_at_def)

lemma cancel_loop_no_match:
  "\<forall>x\<in>set xs. lower (name x) \<noteq> lower n \<Longrightarrow>
   cancel_loop (enumerate k xs) n self = (False, self)"
  by (induction xs arbitrary: k) auto

lemma cancel_loop_first_match:
  "\<forall>x\<in>set pre. lower (name x) \<noteq> lower n \<Longrightarrow> lower (name b) = lower n \<Longrightarrow>
   cancel_loop (enumerate k (pre @ b # post)) n self =
     (True, self\<lparr>heap := (heap self)(bus b := release_seats (seats b) (heap self (bus b))),
                 bookings := del_at (k + length pre) (bookings self)\<rparr>)"
  by (induction pre arbitrary: k) auto

lemma cancel_booking_no_match:
  "\<forall>x\<in>set (bookings sys). lower (name x) \<noteq> lower n \<Longrightarrow>
   cancel_booking n sys = (False, sys)"
  by (simp add: cancel_booking_def cancel_loop_no_match)

lemma cancel_booking_split:
  assumes "bookings sys = pre @ b # post"
    and "\<forall>x\<in>set pre. lower (name x) \<noteq> lower n"
    and "lower (name b) = lower n"
  shows "cancel_booking n sys =
     (True, sys\<lparr>heap := (heap sys)(bus b := release_seats (seats b) (heap sys (bus b))),
                bookings := pre @ post\<rparr>)"
  using assms
  by (simp add: cancel_booking_def cancel_loop_first_match del_at_append_Cons)

text \<open>Every call is one of the two: no booking matches, or there is a first match.\<close>

lemma cancel_booking_cases:
  obtains (none) "\<forall>x\<in>set (bookings sys). lower (name x) \<noteq> lower n"
       "cancel_booking n sys = (False, sys)"
  | (first) pre b post where "bookings sys = pre @ b # post"
       "\<forall>x\<in>set pre. lower (name x) \<noteq> lower n" "lower (name b) = lower n"
       "cancel_booking n sys =
          (True, sys\<lparr>heap := (heap sys)(bus b := release_seats (seats b) (heap sys (bus b))),
                bookings := pre @ post\<rparr>)"
proof (cases "\<exists>x\<in>set (bookings sys). lower (name x) = lower n")
  case True
  then obtain pre b post where s: "bookings sys = pre @ b # post"
    "lower (name b) = lower n" "\<forall>x\<in>set pre. lower (name x) \<noteq> lower n"
    using split_list_first_prop [of "bookings sys" "\<lambda>x. lower (name x) = lower n"] by blast
  then show ?thesis using first cancel_booking_split by blast
next
  case False
  then show ?thesis using none cancel_booking_no_match by blast
qed

subsection \<open>The example inputs, evaluated\<close>

lemmas service_defs =
  run_def book_ticket_def BookingRequest_valid_def create_booking_def get_bus_def
  reserve_seats_def BusBookingSystem_init_def Bus_init_def Booking_init_def Let_def

lemma strftime_example_now: "strftime_YmdHMS example_now = ''20240102030405''"
  by code_simp

lemma isoformat_example_now: "isoformat example_now = ''2024-01-02T03:04:05.000006''"
  by code_simp

lemma lower_examples:
  "lower ''Alice'' = lower ''alice''"
  "lower ''Bob'' \<noteq> lower ''alice''"
  "lower ''Alice'' \<noteq> lower ''Bob''"
  by code_simp+

lemma get_bus_init: "get_bus BusBookingSystem_init 1 = Some 0"
  by (simp add: service_defs)

lemma seats_init:
  "available_seats (heap BusBookingSystem_init 0) = 30"
  "total_seats (heap BusBookingSystem_init 0) = 30"
  by (simp_all add: service_defs)

lemma get_bus_after_alice: "get_bus after_alice 1 = Some 0"
  by (simp add: after_alice_def service_defs)

lemma seats_after_alice:
  "available_seats (heap after_alice 0) = 25"
  "total_seats (heap after_alice 0) = 30"
  by (simp_all add: after_alice_def service_defs)

lemma bookings_after_alice:
  "bookings after_alice =
     [\<lparr>booking_id = ''BK20240102030405'', name = ''Alice'', bus = 0, seats = 5,
       total_fare = 2500, booking_time = ''2024-01-02T03:04:05.000006''\<rparr>]"
  by (simp add: after_alice_def service_defs strftime_example_now isoformat_example_now)

lemma bookings_three_bookings:
  "bookings three_bookings = [bob_booking] @ alice_booking # [ALICE_booking]"
  by (simp add: three_bookings_def service_defs strftime_example_now isoformat_example_now
      bob_booking_def alice_booking_def ALICE_booking_def)

lemma three_bookings_first_match:
  "\<forall>x\<in>set [bob_booking]. lower (name x) \<noteq> lower ''alice''"
  "lower (name alice_booking) = lower ''alice''"
  by (simp_all add: bob_booking_def alice_booking_def lower_examples)

lemma cancel_alice_three_bookings: "fst (cancel_booking ''alice'' three_bookings)"
  by (simp add: cancel_booking_split [OF bookings_three_bookings three_bookings_first_match])

subsection \<open>The state after \<open>create_booking\<close>\<close>

lemma create_booking_state:
  "snd (create_booking r now1 now2 sys) =
     (case get_bus sys (rq_bus_id r) of
        None \<Rightarrow> sys
      | Some ref \<Rightarrow>
          if rq_seats r \<le> available_seats (heap sys ref)
          then sys\<lparr>heap := (heap sys)
                      (ref := (heap sys ref)
                         \<lparr>available_seats := available_seats (heap sys ref) - rq_seats r\<rparr>),
                    bookings := bookings sys @
                      [Booking_init (rq_name r) ref
                         ((heap sys ref)
                            \<lparr>available_seats := available_seats (heap sys ref) - rq_seats r\<rparr>)
                         (rq_seats r) now1 now2]\<rparr>
          else sys)"
  by (simp add: create_booking_def reserve_seats_def Let_def split: option.splits)

subsection \<open>The invariant\<close>

lemma seats_booked_Nil: "seats_booked [] ref = 0"
  by (simp add: seats_booked_def)

lemma seats_booked_Cons:
  "seats_booked (b # bs) ref = (if bus b = ref then seats b else 0) + seats_booked bs ref"
  by (simp add: seats_booked_def)

lemma seats_booked_append:
  "seats_booked (xs @ ys) ref = seats_booked xs ref + seats_booked ys ref"
  by (simp add: seats_booked_def)

lemma seats_booked_nonneg: "\<forall>b\<in>set bs. 0 < seats b \<Longrightarrow> 0 \<le> seats_booked bs ref"
  by (induction bs) (auto simp add: seats_booked_Nil seats_booked_Cons)

lemma consistent_init: "consistent BusBookingSystem_init"
  by (simp add: consistent_def BusBookingSystem_init_def seats_booked_Nil Bus_init_def)

lemma consistent_create_booking:
  assumes "consistent sys" and "0 < rq_seats r"
  shows "consistent (snd (create_booking r now1 now2 sys))"
proof (cases "get_bus sys (rq_bus_id r)")
  case None
  with assms(1) show ?thesis by (simp add: create_booking_state)
next
  case (Some ref)
  show ?thesis
  proof (cases "rq_seats r \<le> available_seats (heap sys ref)")
    case False
    with Some assms(1) show ?thesis by (simp add: create_booking_state)
  next
    case True
    from assms(1) have b:
      "\<And>x. seats_booked (bookings sys) x \<le> total_seats (heap sys x)"
      "\<And>x. available_seats (heap sys x) =
            total_seats (heap sys x) - seats_booked (bookings sys) x"
      "\<forall>b\<in>set (bookings sys). 0 < seats b"
      by (simp_all add: consistent_def)
    from True b(2) [of ref]
    have c: "seats_booked (bookings sys) ref + rq_seats r \<le> total_seats (heap sys ref)"
      by simp
    show ?thesis
      using Some True assms(2) b c
      by (simp add: create_booking_state consistent_def seats_booked_append seats_booked_Cons
          seats_booked_Nil Booking_init_def)
  qed
qed

lemma consistent_cancel_booking:
  assumes "consistent sys"
  shows "consistent (snd (cancel_booking n sys))"
proof (cases rule: cancel_booking_cases [where sys = sys and n = n])
  case none
  with assms show ?thesis by simp
next
  case (first pre b post)
  let ?sys' = "sys\<lparr>heap := (heap sys)(bus b := release_seats (seats b) (heap sys (bus b))),
                   bookings := pre @ post\<rparr>"
  from assms first(1)
  have pos: "\<forall>x\<in>set pre. 0 < seats x" "0 < seats b" "\<forall>x\<in>set post. 0 < seats x"
    by (auto simp add: consistent_def)
  have nn: "0 \<le> seats_booked pre (bus b)" "0 \<le> seats_booked post (bus b)"
    using pos seats_booked_nonneg by blast+
  from assms have
    "\<And>x. seats_booked (bookings sys) x \<le> total_seats (heap sys x)"
    "\<And>x. available_seats (heap sys x) =
          total_seats (heap sys x) - seats_booked (bookings sys) x"
    by (simp_all add: consistent_def)
  then have b:
    "\<And>x. seats_booked pre x + (if bus b = x then seats b else 0) + seats_booked post x
           \<le> total_seats (heap sys x)"
    "\<And>x. available_seats (heap sys x) = total_seats (heap sys x) -
          (seats_booked pre x + (if bus b = x then seats b else 0) + seats_booked post x)"
    by (simp_all add: first(1) seats_booked_append seats_booked_Cons add.assoc)
  have h: "available_seats (release_seats (seats b) (heap sys (bus b))) =
      total_seats (heap sys (bus b)) - (seats_booked pre (bus b) + seats_booked post (bus b))"
    using b(2) [of "bus b"] nn by (simp add: release_seats_def)
  have t: "total_seats (release_seats (seats b) (heap sys (bus b))) =
      total_seats (heap sys (bus b))"
    by (simp add: release_seats_def)
  have "consistent ?sys'"
    unfolding consistent_def
  proof (intro conjI allI)
    show "\<forall>x\<in>set (bookings ?sys'). 0 < seats x"
      using pos by auto
  next
    fix x
    show "seats_booked (bookings ?sys') x \<le> total_seats (heap ?sys' x)"
      using b(1) [of x] pos(2) by (cases "x = bus b") (auto simp add: t seats_booked_append)
  next
    fix x
    show "available_seats (heap ?sys' x) =
        total_seats (heap ?sys' x) - seats_booked (bookings ?sys') x"
      using b(2) [of x] by (cases "x = bus b") (auto simp add: t h seats_booked_append)
  qed
  then show ?thesis by (simp add: first(4))
qed

lemma consistent_serve: "consistent sys \<Longrightarrow> consistent (serve rq sys)"
proof (cases rq)
  case (BookTicket r now1 now2)
  assume "consistent sys"
  then show ?thesis using BookTicket consistent_create_booking [of sys r now1 now2]
    by (simp add: book_ticket_def BookingRequest_valid_def)
next
  case (CancelBooking r)
  assume "consistent sys"
  then show ?thesis using CancelBooking consistent_cancel_booking [of sys "cr_name r"]
    by (cases "cancel_booking (cr_name r) sys") (simp add: cancel_booking_endpoint_def)
qed (simp_all add: get_buses_def get_bookings_def)

lemma reachable_consistent: "reachable sys \<Longrightarrow> consistent sys"
  by (induction rule: reachable.induct) (simp_all add: consistent_init consistent_serve)

subsection \<open>Identifiers\<close>

lemma length_zero_padded: "length (zero_padded w n) = w"
  by (induction w arbitrary: n) simp_all

lemma digit_char_eq: "digit_char n = digit_char m \<Longrightarrow> n mod 10 = m mod 10"
proof -
  assume "digit_char n = digit_char m"
  then have "(of_char (digit_char n) :: nat) = of_char (digit_char m)" by simp
  then have "(48 + n mod 10) mod 256 = (48 + m mod 10) mod 256"
    by (simp only: digit_char_def of_char_of)
  moreover have "n mod 10 < 10" "m mod 10 < 10" by simp_all
  ultimately show ?thesis by simp
qed

lemma zero_padded_inj:
  "n < 10 ^ w \<Longrightarrow> m < 10 ^ w \<Longrightarrow> zero_padded w n = zero_padded w m \<Longrightarrow> n = m"
proof (induction w arbitrary: n m)
  case 0
  then show ?case by simp
next
  case (Suc w)
  from Suc.prems(3) have e: "zero_padded w (n div 10) = zero_padded w (m div 10)"
    and d: "digit_char n = digit_char m" by simp_all
  from Suc.prems(1,2) have "n div 10 < 10 ^ w" "m div 10 < 10 ^ w"
    by (simp_all add: less_mult_imp_div_less mult.commute)
  then have "n div 10 = m div 10" using e by (rule Suc.IH)
  moreover from d have "n mod 10 = m mod 10" by (rule digit_char_eq)
  ultimately show ?case by (metis div_mult_mod_eq)
qed

text \<open>Two readings of the clock print the same only when they lie in the same second.\<close>

lemma strftime_YmdHMS_inj:
  assumes "valid_datetime d" and "valid_datetime e"
    and "strftime_YmdHMS d = strftime_YmdHMS e"
  shows "clock_second d = clock_second e"
proof -
  from assms(3) have
    "zero_padded 4 (year d) = zero_padded 4 (year e)"
    "zero_padded 2 (month d) = zero_padded 2 (month e)"
    "zero_padded 2 (day d) = zero_padded 2 (day e)"
    "zero_padded 2 (hour d) = zero_padded 2 (hour e)"
    "zero_padded 2 (minute d) = zero_padded 2 (minute e)"
    "zero_padded 2 (second d) = zero_padded 2 (second e)"
    by (simp_all add: strftime_YmdHMS_def length_zero_padded)
  moreover from assms(1,2) have
    "year d < 10 ^ 4" "year e < 10 ^ 4" "month d < 10 ^ 2" "month e < 10 ^ 2"
    "day d < 10 ^ 2" "day e < 10 ^ 2" "hour d < 10 ^ 2" "hour e < 10 ^ 2"
    "minute d < 10 ^ 2" "minute e < 10 ^ 2" "second d < 10 ^ 2" "second e < 10 ^ 2"
    by (simp_all add: valid_datetime_def)
  ultimately show ?thesis
    by (simp only: clock_second_def prod.inject) (blast intro: zero_padded_inj)
qed

lemma booking_ids_serve:
  "distinct (map booking_id (bookings sys) @ map new_id (clock_readings (rq # rqs))) \<Longrightarrow>
   distinct (map booking_id (bookings (serve rq sys)) @ map new_id (clock_readings rqs))"
proof (cases rq)
  case (BookTicket r now1 now2)
  assume "distinct (map booking_id (bookings sys) @ map new_id (clock_readings (rq # rqs)))"
  with BookTicket show ?thesis
    by (auto simp add: book_ticket_def create_booking_state Booking_init_def new_id_def
        split: option.splits)
next
  case (CancelBooking r)
  assume d: "distinct (map booking_id (bookings sys) @ map new_id (clock_readings (rq # rqs)))"
  show ?thesis
  proof (cases rule: cancel_booking_cases [where sys = sys and n = "cr_name r"])
    case none
    with d CancelBooking show ?thesis by (simp add: cancel_booking_endpoint_def)
  next
    case (first pre b post)
    with d CancelBooking show ?thesis by (auto simp add: cancel_booking_endpoint_def)
  qed
qed (simp_all add: get_buses_def get_bookings_def)

lemma booking_ids_run:
  "distinct (map booking_id (bookings sys) @ map new_id (clock_readings rqs)) \<Longrightarrow>
   distinct (map booking_id (bookings (run rqs sys)))"
proof (induction rqs arbitrary: sys)
  case Nil
  then show ?case by (simp add: run_Nil)
next
  case (Cons rq rqs)
  from Cons.prems
  have "distinct (map booking_id (bookings (serve rq sys)) @ map new_id (clock_readings rqs))"
    by (rule booking_ids_serve)
  then show ?case unfolding run_Cons by (rule Cons.IH)
qed

section \<open>The properties\<close>

subsection \<open>Seat counts stay within bounds\<close>

text \<open>
  Claim C1. In every state the service can reach from its initial state by requests to
  its endpoints, every bus of the dictionary has between zero and \<open>total_seats\<close>
  available seats. The bound rests on the constraint \<open>seats > 0\<close> of the class
  \<^verbatim>\<open>BookingRequest\<close>, which the objects built from the input of a request
  satisfy.
\<close>

theorem seats_within_bounds:
  assumes "reachable sys" and "get_bus sys k = Some ref"
  shows "0 \<le> available_seats (heap sys ref) \<and>
         available_seats (heap sys ref) \<le> total_seats (heap sys ref)"
proof -
  from assms(1) have c: "consistent sys" by (rule reachable_consistent)
  then have "0 \<le> seats_booked (bookings sys) ref"
    by (simp add: consistent_def seats_booked_nonneg)
  moreover from c have "seats_booked (bookings sys) ref \<le> total_seats (heap sys ref)"
    "available_seats (heap sys ref) = total_seats (heap sys ref) - seats_booked (bookings sys) ref"
    by (simp_all add: consistent_def)
  ultimately show ?thesis by simp
qed

text \<open>After Alice has booked five seats on bus 1, the bus has 25 of 30 seats available.\<close>

theorem seats_within_bounds_witness:
  "reachable after_alice \<and> get_bus after_alice 1 = Some 0 \<and>
   available_seats (heap after_alice 0) = 25 \<and>
   0 \<le> available_seats (heap after_alice 0) \<and>
   available_seats (heap after_alice 0) \<le> total_seats (heap after_alice 0)"
  using reachable_after_alice get_bus_after_alice seats_after_alice(1)
    seats_within_bounds [OF reachable_after_alice get_bus_after_alice]
  by simp

subsection \<open>Seat counts agree with the ledger\<close>

text \<open>
  Claim C2. In every reachable state, the available seats of every bus of the dictionary
  are its total seats less the sum of the seats of the bookings in the ledger that refer
  to this bus. A cancelled booking is deleted from the ledger, so the ledger holds the
  active bookings.
\<close>

theorem seats_accounting:
  assumes "reachable sys" and "get_bus sys k = Some ref"
  shows "available_seats (heap sys ref) =
         total_seats (heap sys ref) -
           sum_list (map seats (filter (\<lambda>b. bus b = ref) (bookings sys)))"
  using reachable_consistent [OF assms(1)] by (simp add: consistent_def seats_booked_def)

theorem seats_accounting_witness:
  "reachable after_alice \<and> get_bus after_alice 1 = Some 0 \<and>
   sum_list (map seats (filter (\<lambda>b. bus b = 0) (bookings after_alice))) = 5 \<and>
   available_seats (heap after_alice 0) =
     total_seats (heap after_alice 0) -
       sum_list (map seats (filter (\<lambda>b. bus b = 0) (bookings after_alice)))"
proof -
  have "sum_list (map seats (filter (\<lambda>b. bus b = 0) (bookings after_alice))) = 5"
    by (simp add: bookings_after_alice)
  with reachable_after_alice get_bus_after_alice
    seats_accounting [OF reachable_after_alice get_bus_after_alice]
  show ?thesis by simp
qed

subsection \<open>A booking beyond the available seats\<close>

text \<open>
  Claim C3. In every state, for a request whose bus exists and whose seat count exceeds
  the available seats of that bus, \<open>create_booking\<close> raises the exception of status 400,
  "Not enough seats available", and the state is the one before the call: the available
  seats are unchanged and the ledger has no new entry.
\<close>

theorem create_booking_insufficient:
  assumes "get_bus sys (rq_bus_id r) = Some ref"
    and "available_seats (heap sys ref) < rq_seats r"
  shows "create_booking r now1 now2 sys = (Inl InsufficientSeats, sys)"
  using assms by (simp add: create_booking_def reserve_seats_def InsufficientSeats_def)

text \<open>With 25 seats left on bus 1, a request for 26 seats fails and changes nothing.\<close>

theorem create_booking_insufficient_witness:
  "get_bus after_alice 1 = Some 0 \<and> available_seats (heap after_alice 0) = 25 \<and>
   create_booking \<lparr>rq_name = ''Bob'', rq_bus_id = 1, rq_seats = 26\<rparr> example_now example_now
       after_alice = (Inl InsufficientSeats, after_alice)"
proof -
  let ?r = "\<lparr>rq_name = ''Bob'', rq_bus_id = 1, rq_seats = 26\<rparr>"
  have g: "get_bus after_alice (rq_bus_id ?r) = Some 0"
    by (simp add: get_bus_after_alice)
  have l: "available_seats (heap after_alice 0) < rq_seats ?r"
    by (simp add: seats_after_alice)
  from create_booking_insufficient [OF g l] get_bus_after_alice seats_after_alice(1)
  show ?thesis by simp
qed

subsection \<open>Reserving a count that is not positive\<close>

text \<open>
  Claim C4, as amended. \<open>reserve_seats\<close> compares the count with the available seats
  only: it has no check of the sign of the count. For a count of zero or less and a bus
  with no negative seat count it reports success and sets the available seats to their
  value less the count, that is, raises them by the absolute value of the count.
\<close>

theorem reserve_seats_nonpositive:
  assumes "count \<le> 0" and "0 \<le> available_seats b"
  shows "reserve_seats count b = (True, b\<lparr>available_seats := available_seats b - count\<rparr>)"
  using assms by (simp add: reserve_seats_def)

text \<open>
  The claim as it was stated fails on bus 1 of the initial state: reserving \<open>- 5\<close> seats
  reports success and takes the available seats from 30 to 35.
\<close>

theorem reserve_seats_nonpositive_counterexample:
  "fst (reserve_seats (- 5) (heap BusBookingSystem_init 0)) \<and>
   available_seats (heap BusBookingSystem_init 0) = 30 \<and>
   available_seats (snd (reserve_seats (- 5) (heap BusBookingSystem_init 0))) = 35"
  by (simp add: service_defs)

theorem reserve_seats_nonpositive_witness:
  "0 \<le> available_seats (heap BusBookingSystem_init 0) \<and>
   reserve_seats (- 5) (heap BusBookingSystem_init 0) =
     (True, (heap BusBookingSystem_init 0)
        \<lparr>available_seats := available_seats (heap BusBookingSystem_init 0) - (- 5)\<rparr>)"
proof -
  have a: "0 \<le> available_seats (heap BusBookingSystem_init 0)"
    by (simp add: seats_init)
  have c: "(- 5 :: int) \<le> 0" by simp
  from a reserve_seats_nonpositive [OF c a] show ?thesis by (rule conjI)
qed

subsection \<open>Requests with values outside the request model\<close>

text \<open>
  Claim C5, as amended. \<open>create_booking\<close> reads the name and the seat count of the
  request and checks neither: it has no failure for an invalid request. For every state
  and every request whose bus exists and whose seat count does not exceed the available
  seats of that bus, the call succeeds, appends a booking with the name and the seat
  count of the request to the ledger, and lowers the available seats by the seat count.
  No hypothesis is on the name or on the sign of the seat count, so this holds for an
  empty name, a name of more than 100 characters, and a seat count of zero or less on a
  bus with no negative seat count. The limits on name and seats are the
  \<^verbatim>\<open>Field\<close> constraints of the class \<^verbatim>\<open>BookingRequest\<close>.
\<close>

theorem create_booking_accepts_unvalidated:
  assumes "get_bus sys (rq_bus_id r) = Some ref"
    and "rq_seats r \<le> available_seats (heap sys ref)"
  shows "\<not> isl (fst (create_booking r now1 now2 sys)) \<and>
         map name (bookings (snd (create_booking r now1 now2 sys))) =
           map name (bookings sys) @ [rq_name r] \<and>
         map seats (bookings (snd (create_booking r now1 now2 sys))) =
           map seats (bookings sys) @ [rq_seats r] \<and>
         available_seats (heap (snd (create_booking r now1 now2 sys)) ref) =
           available_seats (heap sys ref) - rq_seats r"
proof -
  from assms have "\<not> isl (fst (create_booking r now1 now2 sys))"
    by (simp add: create_booking_def reserve_seats_def Let_def)
  moreover from assms
  have "map name (bookings (snd (create_booking r now1 now2 sys))) =
          map name (bookings sys) @ [rq_name r]"
    and "map seats (bookings (snd (create_booking r now1 now2 sys))) =
          map seats (bookings sys) @ [rq_seats r]"
    and "available_seats (heap (snd (create_booking r now1 now2 sys)) ref) =
          available_seats (heap sys ref) - rq_seats r"
    by (simp_all add: create_booking_state Booking_init_def)
  ultimately show ?thesis by simp
qed

text \<open>
  The claim as it was stated fails in the initial state. \<open>create_booking\<close> evaluated
  on an object whose name is empty accepts it and adds it to the ledger; evaluated on
  an object with \<open>- 5\<close> seats it accepts it, after which bus 1 has 35 of 30 seats
  available. (An object of the class can hold such values: the class checks its fields
  when the object is constructed from input, not when a field is assigned later.)
\<close>

theorem create_booking_unvalidated_counterexample:
  "\<not> isl (fst (create_booking \<lparr>rq_name = [], rq_bus_id = 1, rq_seats = 1\<rparr>
                 example_now example_now BusBookingSystem_init)) \<and>
   length (bookings (snd (create_booking \<lparr>rq_name = [], rq_bus_id = 1, rq_seats = 1\<rparr>
                 example_now example_now BusBookingSystem_init))) = 1 \<and>
   \<not> isl (fst (create_booking \<lparr>rq_name = ''Alice'', rq_bus_id = 1, rq_seats = - 5\<rparr>
                 example_now example_now BusBookingSystem_init)) \<and>
   available_seats (heap (snd (create_booking
                 \<lparr>rq_name = ''Alice'', rq_bus_id = 1, rq_seats = - 5\<rparr>
                 example_now example_now BusBookingSystem_init)) 0) = 35 \<and>
   total_seats (heap (snd (create_booking
                 \<lparr>rq_name = ''Alice'', rq_bus_id = 1, rq_seats = - 5\<rparr>
                 example_now example_now BusBookingSystem_init)) 0) = 30"
  by (simp add: service_defs)

theorem create_booking_accepts_unvalidated_witness:
  "get_bus BusBookingSystem_init 1 = Some 0 \<and>
   available_seats (heap BusBookingSystem_init 0) = 30 \<and>
   \<not> isl (fst (create_booking \<lparr>rq_name = [], rq_bus_id = 1, rq_seats = - 5\<rparr>
                 example_now example_now BusBookingSystem_init)) \<and>
   map name (bookings (snd (create_booking \<lparr>rq_name = [], rq_bus_id = 1, rq_seats = - 5\<rparr>
                 example_now example_now BusBookingSystem_init))) = [[]] \<and>
   map seats (bookings (snd (create_booking \<lparr>rq_name = [], rq_bus_id = 1, rq_seats = - 5\<rparr>
                 example_now example_now BusBookingSystem_init))) = [- 5] \<and>
   available_seats (heap (snd (create_booking
                 \<lparr>rq_name = [], rq_bus_id = 1, rq_seats = - 5\<rparr>
                 example_now example_now BusBookingSystem_init)) 0) = 35"
proof -
  let ?r = "\<lparr>rq_name = [], rq_bus_id = 1, rq_seats = - 5\<rparr>"
  have g: "get_bus BusBookingSystem_init (rq_bus_id ?r) = Some 0"
    by (simp add: get_bus_init)
  have l: "rq_seats ?r \<le> available_seats (heap BusBookingSystem_init 0)"
    by (simp add: seats_init)
  have e: "bookings BusBookingSystem_init = []"
    by (simp add: BusBookingSystem_init_def)
  from create_booking_accepts_unvalidated [OF g l, of example_now example_now]
    get_bus_init seats_init(1) e
  show ?thesis by simp
qed

subsection \<open>Booking, then cancelling\<close>

text \<open>
  Claim C6, as amended. In every state in which no booking of the ledger matches the
  name of the request and the bus of the request has no more seats available than its
  total, if \<open>create_booking\<close> succeeds then \<open>cancel_booking\<close> with the same name,
  called next, succeeds and gives back the state before the booking: the available
  seats of the bus, and the ledger.
\<close>

theorem create_then_cancel:
  assumes "\<not> isl (fst (create_booking r now1 now2 sys))"
    and "\<forall>b\<in>set (bookings sys). lower (name b) \<noteq> lower (rq_name r)"
    and "get_bus sys (rq_bus_id r) = Some ref"
    and "available_seats (heap sys ref) \<le> total_seats (heap sys ref)"
  shows "cancel_booking (rq_name r) (snd (create_booking r now1 now2 sys)) = (True, sys)"
proof -
  let ?b = "(heap sys ref)\<lparr>available_seats := available_seats (heap sys ref) - rq_seats r\<rparr>"
  let ?booking = "Booking_init (rq_name r) ref ?b (rq_seats r) now1 now2"
  let ?sys' = "sys\<lparr>heap := (heap sys)(ref := ?b), bookings := bookings sys @ [?booking]\<rparr>"
  from assms(1,3) have ok: "rq_seats r \<le> available_seats (heap sys ref)"
    by (simp add: create_booking_def reserve_seats_def split: if_splits)
  with assms(3) have sys': "snd (create_booking r now1 now2 sys) = ?sys'"
    by (simp add: create_booking_state)
  have "cancel_booking (rq_name r) ?sys' =
     (True, ?sys'\<lparr>heap := (heap ?sys')
                     (bus ?booking := release_seats (seats ?booking) (heap ?sys' (bus ?booking))),
                   bookings := bookings sys @ []\<rparr>)"
    by (rule cancel_booking_split) (use assms(2) in \<open>simp_all add: Booking_init_def\<close>)
  also have "\<dots> = (True, sys)"
    using assms(4) by (simp add: Booking_init_def release_seats_def)
  finally show ?thesis by (simp only: sys')
qed

text \<open>
  The claim as it was stated fails in a reachable state: after Carol has booked two
  seats on bus 1 (28 left), a second booking of three seats under the same name
  succeeds, and the cancellation that follows removes the first booking, which leaves 27
  seats and not 28.
\<close>

theorem create_then_cancel_counterexample:
  "reachable after_carol \<and>
   available_seats (heap after_carol 0) = 28 \<and>
   \<not> isl (fst (create_booking \<lparr>rq_name = ''Carol'', rq_bus_id = 1, rq_seats = 3\<rparr>
                 example_now example_now after_carol)) \<and>
   fst (cancel_booking ''Carol''
          (snd (create_booking \<lparr>rq_name = ''Carol'', rq_bus_id = 1, rq_seats = 3\<rparr>
                 example_now example_now after_carol))) \<and>
   available_seats (heap (snd (cancel_booking ''Carol''
          (snd (create_booking \<lparr>rq_name = ''Carol'', rq_bus_id = 1, rq_seats = 3\<rparr>
                 example_now example_now after_carol)))) 0) = 27"
  using reachable_after_carol
  by (simp add: after_carol_def service_defs cancel_booking_def release_seats_def del_at_def)

theorem create_then_cancel_witness:
  "get_bus BusBookingSystem_init 1 = Some 0 \<and>
   cancel_booking ''Alice''
     (snd (create_booking \<lparr>rq_name = ''Alice'', rq_bus_id = 1, rq_seats = 5\<rparr>
             example_now example_now BusBookingSystem_init)) = (True, BusBookingSystem_init)"
proof -
  let ?r = "\<lparr>rq_name = ''Alice'', rq_bus_id = 1, rq_seats = 5\<rparr>"
  have s: "\<not> isl (fst (create_booking ?r example_now example_now BusBookingSystem_init))"
    by (simp add: service_defs)
  have n: "\<forall>b\<in>set (bookings BusBookingSystem_init). lower (name b) \<noteq> lower (rq_name ?r)"
    by (simp add: BusBookingSystem_init_def)
  have g: "get_bus BusBookingSystem_init (rq_bus_id ?r) = Some 0"
    by (simp add: get_bus_init)
  have a: "available_seats (heap BusBookingSystem_init 0) \<le>
      total_seats (heap BusBookingSystem_init 0)"
    by (simp add: seats_init)
  from create_then_cancel [OF s n g a] get_bus_init show ?thesis by simp
qed

subsection \<open>Which booking a cancellation removes\<close>

text \<open>
  Claim C7. \<open>cancel_booking\<close> compares the names after \<open>lower\<close>, so without regard to
  case. When the ledger is \<open>pre @ b # post\<close>, no booking of \<open>pre\<close> matches the name and
  \<open>b\<close> matches it, the call succeeds and the ledger after it is \<open>pre @ post\<close>: the first
  match is removed, every booking of \<open>post\<close> stays, matching or not, and the ledger is
  shorter by one.
\<close>

theorem cancel_booking_first_match_only:
  assumes "bookings sys = pre @ b # post"
    and "\<forall>x\<in>set pre. lower (name x) \<noteq> lower n"
    and "lower (name b) = lower n"
  shows "fst (cancel_booking n sys) \<and>
         bookings (snd (cancel_booking n sys)) = pre @ post \<and>
         length (bookings (snd (cancel_booking n sys))) + 1 = length (bookings sys)"
  using assms by (simp add: cancel_booking_split)

text \<open>
  The ledger holds bookings of Bob, Alice and ALICE, in this order; cancelling \<open>alice\<close>
  removes the booking of Alice and keeps the one of ALICE.
\<close>

theorem cancel_booking_first_match_only_witness:
  "map name (bookings three_bookings) = [''Bob'', ''Alice'', ''ALICE''] \<and>
   fst (cancel_booking ''alice'' three_bookings) \<and>
   map name (bookings (snd (cancel_booking ''alice'' three_bookings))) = [''Bob'', ''ALICE'']"
proof -
  have m: "map name (bookings three_bookings) = [''Bob'', ''Alice'', ''ALICE'']"
    by (simp add: bookings_three_bookings bob_booking_def alice_booking_def ALICE_booking_def)
  from cancel_booking_first_match_only
    [OF bookings_three_bookings three_bookings_first_match]
  have "fst (cancel_booking ''alice'' three_bookings)"
    and "bookings (snd (cancel_booking ''alice'' three_bookings)) =
      [bob_booking] @ [ALICE_booking]"
    by simp_all
  with m show ?thesis by (simp add: bob_booking_def ALICE_booking_def)
qed

subsection \<open>Cancelling a name that is not booked\<close>

text \<open>
  Claim C8. When no booking of the ledger matches the name, \<open>cancel_booking\<close> returns
  \<^verbatim>\<open>False\<close> and the state is the one before the call, ledger and seat counts alike;
  the endpoint turns this into the exception of status 404, "Booking not found" (an
  empty name does not reach \<open>cancel_booking\<close>: it fails the validation of the request).
\<close>

theorem cancel_booking_not_found:
  assumes "\<forall>b\<in>set (bookings sys). lower (name b) \<noteq> lower n"
  shows "cancel_booking n sys = (False, sys) \<and>
         cancel_booking_endpoint \<lparr>cr_name = n\<rparr> sys =
           (Inl (if n = [] then RequestValidationError else BookingNotFound), sys)"
  using cancel_booking_no_match [OF assms]
  by (cases n)
    (simp_all add: cancel_booking_endpoint_def CancelRequest_valid_def BookingNotFound_def)

theorem cancel_booking_not_found_witness:
  "cancel_booking ''Bob'' after_alice = (False, after_alice) \<and>
   cancel_booking_endpoint \<lparr>cr_name = ''Bob''\<rparr> after_alice =
     (Inl BookingNotFound, after_alice)"
proof -
  have n: "\<forall>b\<in>set (bookings after_alice). lower (name b) \<noteq> lower ''Bob''"
    by (simp add: bookings_after_alice lower_examples(3))
  from cancel_booking_not_found [OF n] show ?thesis by simp
qed

subsection \<open>Booking identifiers\<close>

text \<open>
  Claim C9, as amended. The identifier of a booking is \<^verbatim>\<open>BK\<close> followed by the clock
  reading of its creation, printed to the second. After every run of requests from the
  initial state in which the booking requests read pairwise different clock seconds, the
  identifiers of the bookings in the ledger are pairwise distinct.
\<close>

theorem booking_ids_distinct:
  assumes "\<forall>d\<in>set (clock_readings rqs). valid_datetime d"
    and "distinct (map clock_second (clock_readings rqs))"
  shows "distinct (map booking_id (bookings (run rqs BusBookingSystem_init)))"
proof -
  from assms(2)
  have "distinct (clock_readings rqs)" "inj_on clock_second (set (clock_readings rqs))"
    by (simp_all add: distinct_map)
  moreover have "inj_on new_id (set (clock_readings rqs))"
  proof (rule inj_onI)
    fix d e
    assume de: "d \<in> set (clock_readings rqs)" "e \<in> set (clock_readings rqs)"
      "new_id d = new_id e"
    then have "strftime_YmdHMS d = strftime_YmdHMS e" by (simp add: new_id_def)
    with assms(1) de(1,2) have "clock_second d = clock_second e"
      by (blast intro: strftime_YmdHMS_inj)
    with \<open>inj_on clock_second (set (clock_readings rqs))\<close> de(1,2) show "d = e"
      by (blast dest: inj_onD)
  qed
  ultimately have "distinct (map new_id (clock_readings rqs))" by (simp add: distinct_map)
  then have "distinct (map booking_id (bookings BusBookingSystem_init) @
      map new_id (clock_readings rqs))"
    by (simp add: BusBookingSystem_init_def)
  then show ?thesis by (rule booking_ids_run)
qed

text \<open>
  The claim as it was stated fails: two bookings made within one clock second get the
  same identifier.
\<close>

theorem booking_ids_collide_counterexample:
  "reachable (run same_second BusBookingSystem_init) \<and>
   map booking_id (bookings (run same_second BusBookingSystem_init)) =
     [''BK20240102030405'', ''BK20240102030405''] \<and>
   \<not> distinct (map booking_id (bookings (run same_second BusBookingSystem_init)))"
proof -
  have "map booking_id (bookings (run same_second BusBookingSystem_init)) =
     [''BK20240102030405'', ''BK20240102030405'']"
    by (simp add: same_second_def service_defs strftime_example_now)
  with reachable_run [OF reachable.initial, of same_second] show ?thesis by simp
qed

theorem booking_ids_distinct_witness:
  "clock_readings next_second = [example_now, example_later] \<and>
   valid_datetime example_now \<and> valid_datetime example_later \<and>
   clock_second example_now \<noteq> clock_second example_later \<and>
   distinct (map booking_id (bookings (run next_second BusBookingSystem_init)))"
proof -
  have c: "clock_readings next_second = [example_now, example_later]"
    by (simp add: next_second_def)
  have v: "valid_datetime example_now" "valid_datetime example_later"
    by (simp_all add: valid_datetime_def example_now_def example_later_def)
  have s: "clock_second example_now \<noteq> clock_second example_later"
    by (simp add: clock_second_def example_now_def example_later_def)
  have a: "\<forall>d\<in>set (clock_readings next_second). valid_datetime d"
    using v by (simp add: c)
  have d: "distinct (map clock_second (clock_readings next_second))"
    using s by (simp add: c)
  from booking_ids_distinct [OF a d] c v s show ?thesis by simp
qed

subsection \<open>What a cancellation leaves alone\<close>

text \<open>
  Claim C10. A successful \<open>cancel_booking\<close> removes one booking \<open>b\<close> from the ledger and
  keeps the bookings before and after it, in their order; the dictionary of buses is
  unchanged; and the store changes at the bus object of \<open>b\<close> only, where nothing but
  \<open>available_seats\<close> is written.
\<close>

theorem cancel_booking_frame:
  assumes "fst (cancel_booking n sys)"
  shows "\<exists>pre b post.
           bookings sys = pre @ b # post \<and>
           bookings (snd (cancel_booking n sys)) = pre @ post \<and>
           buses (snd (cancel_booking n sys)) = buses sys \<and>
           heap (snd (cancel_booking n sys)) = (heap sys)
             (bus b := (heap sys (bus b))
                \<lparr>available_seats :=
                   min (available_seats (heap sys (bus b)) + seats b)
                       (total_seats (heap sys (bus b)))\<rparr>)"
proof (cases rule: cancel_booking_cases [where sys = sys and n = n])
  case none
  with assms show ?thesis by simp
next
  case (first pre b post)
  then show ?thesis by (auto simp add: release_seats_def)
qed

theorem cancel_booking_frame_witness:
  "fst (cancel_booking ''alice'' three_bookings) \<and>
   (\<exists>pre b post.
      bookings three_bookings = pre @ b # post \<and>
      bookings (snd (cancel_booking ''alice'' three_bookings)) = pre @ post \<and>
      buses (snd (cancel_booking ''alice'' three_bookings)) = buses three_bookings \<and>
      heap (snd (cancel_booking ''alice'' three_bookings)) = (heap three_bookings)
        (bus b := (heap three_bookings (bus b))
           \<lparr>available_seats :=
              min (available_seats (heap three_bookings (bus b)) + seats b)
                  (total_seats (heap three_bookings (bus b)))\<rparr>))"
  using cancel_alice_three_bookings cancel_booking_frame [OF cancel_alice_three_bookings]
  by (rule conjI)

end
